theory Spec2Isabelle
  imports Complex_Main "HOL-Library.List_Lexorder" "HOL-Library.Char_ord" "HOL-Library.AList"
begin

section \<open>The financial aggregation engine of the finance platform\<close>

text \<open>
  A shallow embedding of the aggregation functions of the frontend script, in its current
  version (the one with the profit and loss statement) and, for the invoice total, in its
  older version \<^verbatim>\<open>scripts/app.js\<close>: \<^verbatim>\<open>parseNumber\<close>, \<^verbatim>\<open>computeInvoiceTotal\<close>, \<^verbatim>\<open>monthKey\<close>,
  \<^verbatim>\<open>aggregateByMonthSell\<close>, \<^verbatim>\<open>aggregateByMonthExpenses\<close>, \<^verbatim>\<open>mapToSortedSeries\<close>,
  \<^verbatim>\<open>alignSeriesLabels\<close>, \<^verbatim>\<open>calcPLForYear\<close> and the record selection of
  \<^verbatim>\<open>openPLDetails\<close>.

  Conventions of the embedding.
  \<^item> A JavaScript number that is finite is a \<^typ>\<open>real\<close>: arithmetic is exact, the rounding
    of IEEE doubles is not modelled. \<open>NaN\<close> and the infinities are the value \<open>None\<close> of
    a \<^typ>\<open>real option\<close> where a conversion can produce them.
  \<^item> A JavaScript string is a \<^typ>\<open>string\<close>; a \<^typ>\<open>char\<close> stands for a code unit below 256.
    The relational operators on two strings compare code units lexicographically, which is
    the order of \<^typ>\<open>char list\<close> used here.
  \<^item> A field that holds a string or is absent (\<open>undefined\<close>, \<open>null\<close>) is a
    \<^typ>\<open>string option\<close>; a field that is read through \<^verbatim>\<open>parseNumber\<close> holds any JSON
    scalar and is a \<open>jsval\<close>.
  \<^item> The global \<^verbatim>\<open>state\<close> object is passed explicitly as a record; a \<^verbatim>\<open>Map\<close> is an
    association list in insertion order, a \<^verbatim>\<open>Set\<close> a duplicate-free list in insertion order.
  \<^item> What the script takes from its JavaScript host (string to number conversion, the
    parsing of date strings outside the date-only ISO form, the local time zone) is the
    parameter \<open>h\<close> of every function that depends on it.
\<close>

subsection \<open>JavaScript values and the host\<close>

datatype jsval = JUndefined | JNull | JBool bool | JNum real | JStr string

record host =
  strToNumber :: "string \<Rightarrow> real option"
  dateParseOther :: "string \<Rightarrow> int option"
  localTZA :: "int \<Rightarrow> int"

text \<open>\<^verbatim>\<open>Number(v)\<close>; \<open>None\<close> when the result is not finite.\<close>

fun toNumber :: "host \<Rightarrow> jsval \<Rightarrow> real option" where
  "toNumber h JUndefined = None"
| "toNumber h JNull = Some 0"
| "toNumber h (JBool b) = Some (if b then 1 else 0)"
| "toNumber h (JNum r) = Some r"
| "toNumber h (JStr s) = strToNumber h s"

text \<open>The truthiness that \<^verbatim>\<open>||\<close> and \<^verbatim>\<open>!\<close> test.\<close>

fun truthy :: "jsval \<Rightarrow> bool" where
  "truthy JUndefined = False"
| "truthy JNull = False"
| "truthy (JBool b) = b"
| "truthy (JNum r) = (r \<noteq> 0)"
| "truthy (JStr s) = (s \<noteq> [])"

definition jsOr :: "jsval \<Rightarrow> jsval \<Rightarrow> jsval" where
  "jsOr a b = (if truthy a then a else b)"

text \<open>
  \<^verbatim>\<open>function parseNumber(input) { const n = Number(input); return Number.isFinite(n) ? n : 0; }\<close>
\<close>

definition parseNumber :: "host \<Rightarrow> jsval \<Rightarrow> real" where
  "parseNumber h input = (case toNumber h input of Some n \<Rightarrow> n | None \<Rightarrow> 0)"

subsection \<open>Invoice totals\<close>

record lineItem =
  qty :: jsval
  price :: jsval

text \<open>
  The current script:
  \<^verbatim>\<open>items.reduce((sum, i) => sum + (parseNumber(i.qty || 1) * parseNumber(i.price)), 0)\<close>
\<close>

definition computeInvoiceTotal :: "host \<Rightarrow> lineItem list \<Rightarrow> real" where
  "computeInvoiceTotal h items =
     fold (\<lambda>i sum. sum + parseNumber h (jsOr (qty i) (JNum 1)) * parseNumber h (price i)) items 0"

text \<open>
  The older script (\<^verbatim>\<open>scripts/app.js\<close>), whose line items have no quantity:
  \<^verbatim>\<open>items.reduce((sum, i) => sum + parseNumber(i.price), 0)\<close>
\<close>

definition computeInvoiceTotal_legacy :: "host \<Rightarrow> lineItem list \<Rightarrow> real" where
  "computeInvoiceTotal_legacy h items = fold (\<lambda>i sum. sum + parseNumber h (price i)) items 0"

subsection \<open>Dates\<close>

text \<open>
  A \<^verbatim>\<open>Date\<close> object holds a time value, the milliseconds since the epoch in UTC, or is
  invalid (\<open>None\<close>). The calendar functions follow ECMAScript's \<open>Day\<close>, \<open>YearFromTime\<close>,
  \<open>DayWithinYear\<close>, \<open>InLeapYear\<close> and \<open>MonthFromTime\<close>; the days of a civil date
  are counted in the proleptic Gregorian calendar.
\<close>

definition msPerDay :: int where
  "msPerDay = 86400000"

definition isLeapYear :: "int \<Rightarrow> bool" where
  "isLeapYear y = (y mod 4 = 0 \<and> (y mod 100 \<noteq> 0 \<or> y mod 400 = 0))"

definition DayFromYear :: "int \<Rightarrow> int" where
  "DayFromYear y =
     365 * (y - 1970) + (y - 1969) div 4 - (y - 1901) div 100 + (y - 1601) div 400"

definition daysBeforeMonth :: "bool \<Rightarrow> nat \<Rightarrow> int" where
  "daysBeforeMonth leap m =
     [0, 31, 59, 90, 120, 151, 181, 212, 243, 273, 304, 334] ! m + (if leap \<and> 2 \<le> m then 1 else 0)"

definition daysInMonth :: "int \<Rightarrow> nat \<Rightarrow> nat" where
  "daysInMonth y m =
     (if m = 2 then (if isLeapYear y then 29 else 28)
      else if m \<in> {4, 6, 9, 11} then 30 else 31)"

text \<open>The day number of the civil date \<open>y\<close>-\<open>m\<close>-\<open>d\<close> (\<open>m\<close> from 1, \<open>d\<close> from 1).\<close>

definition MakeDay :: "int \<Rightarrow> nat \<Rightarrow> nat \<Rightarrow> int" where
  "MakeDay y m d = DayFromYear y + daysBeforeMonth (isLeapYear y) (m - 1) + int d - 1"

definition Day :: "int \<Rightarrow> int" where
  "Day t = t div msPerDay"

text \<open>
  The year of a day number: the era of 400 years (146097 days) and the year within it,
  counted from 1 March of year 0, then moved to a year that starts in January.
\<close>

definition yearOfDay :: "int \<Rightarrow> int" where
  "yearOfDay z =
     (let z' = z + 719468;
          era = z' div 146097;
          doe = z' mod 146097;
          yoe = (doe - doe div 1460 + doe div 36524 - doe div 146096) div 365;
          doy = doe - (365 * yoe + yoe div 4 - yoe div 100)
      in yoe + era * 400 + (if 306 \<le> doy then 1 else 0))"

definition YearFromTime :: "int \<Rightarrow> int" where
  "YearFromTime t = yearOfDay (Day t)"

definition DayWithinYear :: "int \<Rightarrow> int" where
  "DayWithinYear t = Day t - DayFromYear (YearFromTime t)"

definition InLeapYear :: "int \<Rightarrow> int" where
  "InLeapYear t = (if isLeapYear (YearFromTime t) then 1 else 0)"

definition MonthFromTime :: "int \<Rightarrow> nat" where
  "MonthFromTime t =
     (let d = DayWithinYear t; l = InLeapYear t
      in if d < 31 then 0
         else if d < 59 + l then 1
         else if d < 90 + l then 2
         else if d < 120 + l then 3
         else if d < 151 + l then 4
         else if d < 181 + l then 5
         else if d < 212 + l then 6
         else if d < 243 + l then 7
         else if d < 273 + l then 8
         else if d < 304 + l then 9
         else if d < 334 + l then 10
         else 11)"

definition LocalTime :: "host \<Rightarrow> int \<Rightarrow> int" where
  "LocalTime h t = t + localTZA h t"

text \<open>Decimal digits and the zero-padded date-only form \<open>YYYY-MM-DD\<close>.\<close>

definition isDigit :: "char \<Rightarrow> bool" where
  "isDigit c = (CHR ''0'' \<le> c \<and> c \<le> CHR ''9'')"

definition digitVal :: "char \<Rightarrow> nat" where
  "digitVal c = of_char c - 48"

definition digitsVal :: "string \<Rightarrow> nat" where
  "digitsVal s = fold (\<lambda>c n. 10 * n + digitVal c) s 0"

text \<open>
  \<open>isoDate s\<close> is the civil date of a string of the form \<open>YYYY-MM-DD\<close> that denotes a
  valid calendar date, and \<open>None\<close> for every other string.
\<close>

definition isoDate :: "string \<Rightarrow> (int \<times> nat \<times> nat) option" where
  "isoDate s =
     (if length s = 10 \<and> s ! 4 = CHR ''-'' \<and> s ! 7 = CHR ''-''
         \<and> list_all isDigit (take 4 s) \<and> list_all isDigit (take 2 (drop 5 s))
         \<and> list_all isDigit (drop 8 s)
      then (let y = int (digitsVal (take 4 s));
                m = digitsVal (take 2 (drop 5 s));
                d = digitsVal (drop 8 s)
            in if 1 \<le> m \<and> m \<le> 12 \<and> 1 \<le> d \<and> d \<le> daysInMonth y m
               then Some (y, m, d) else None)
      else None)"


text \<open>
  \<^verbatim>\<open>new Date(s)\<close> for a string: a date-only ISO string is midnight UTC of that date; what
  any other string gives is the host's business.
\<close>

definition newDate :: "host \<Rightarrow> string \<Rightarrow> int option" where
  "newDate h s =
     (case isoDate s of
        Some (y, m, d) \<Rightarrow> Some (MakeDay y m d * msPerDay)
      | None \<Rightarrow> dateParseOther h s)"

text \<open>\<^verbatim>\<open>d.getMonth()\<close> and \<^verbatim>\<open>d.getFullYear()\<close>, in local time; \<open>None\<close> is \<open>NaN\<close>.\<close>

definition getMonth :: "host \<Rightarrow> int option \<Rightarrow> nat option" where
  "getMonth h d = map_option (\<lambda>t. MonthFromTime (LocalTime h t)) d"

definition getFullYear :: "host \<Rightarrow> int option \<Rightarrow> int option" where
  "getFullYear h d = map_option (\<lambda>t. YearFromTime (LocalTime h t)) d"

text \<open>Number to string for an integer, and \<^verbatim>\<open>String(n).padStart(2, '0')\<close>.\<close>

definition digitChar :: "nat \<Rightarrow> char" where
  "digitChar n = char_of (48 + n)"

fun showNat :: "nat \<Rightarrow> string" where
  "showNat n = (if n < 10 then [digitChar n] else showNat (n div 10) @ [digitChar (n mod 10)])"

declare showNat.simps [simp del]

definition showInt :: "int \<Rightarrow> string" where
  "showInt i = (if i < 0 then CHR ''-'' # showNat (nat (- i)) else showNat (nat i))"

definition pad2 :: "nat \<Rightarrow> string" where
  "pad2 n = (let s = showNat n in replicate (2 - length s) CHR ''0'' @ s)"

text \<open>
  A sample host for the examples. Its time zone is UTC; its date parser accepts nothing
  beyond the date-only form; its string to number conversion reads the empty string as 0
  and a decimal literal (an optional sign, digits, an optional fraction) as its value, and
  leaves out white space, exponents and the other literal forms of ECMAScript.
\<close>

definition decimalLiteral :: "string \<Rightarrow> real option" where
  "decimalLiteral s =
     (let neg = (s \<noteq> [] \<and> hd s = CHR ''-'');
          u = (if s \<noteq> [] \<and> (hd s = CHR ''-'' \<or> hd s = CHR ''+'') then tl s else s);
          ip = takeWhile isDigit u;
          rest = dropWhile isDigit u;
          fp = (if rest = [] then Some []
                else if hd rest = CHR ''.'' \<and> list_all isDigit (tl rest) then Some (tl rest)
                else None)
      in case fp of
           None \<Rightarrow> None
         | Some f \<Rightarrow>
             if ip = [] \<and> f = [] then None
             else Some ((if neg then - 1 else 1)
                        * (real (digitsVal ip) + real (digitsVal f) / 10 ^ length f)))"

definition utcHost :: host where
  "utcHost = \<lparr> strToNumber = (\<lambda>s. if s = [] then Some 0 else decimalLiteral s),
               dateParseOther = (\<lambda>s. None),
               localTZA = (\<lambda>t. 0) \<rparr>"

subsection \<open>The ledger\<close>

text \<open>
  The four collections of \<^verbatim>\<open>state\<close> that the aggregation reads. Only the fields the
  aggregation touches are kept, with the record's \<open>id\<close>; the field names carry the
  record's initials since several records have a \<open>date\<close>, a \<open>type\<close> and an \<open>amount\<close>.
\<close>

record sellEntry =
  se_id :: string
  se_date :: "string option"
  se_type :: "string option"
  se_amount :: jsval

record invoice =
  inv_id :: string
  inv_invoiceDate :: "string option"
  inv_type :: "string option"
  inv_items :: "lineItem list"

record expenseType =
  et_id :: string
  et_name :: string

record otherExpense =
  oe_id :: string
  oe_date :: "string option"
  oe_typeId :: "string option"
  oe_amount :: jsval

record ledger =
  sellEntries :: "sellEntry list"
  invoices :: "invoice list"
  expenseTypes :: "expenseType list"
  otherExpenses :: "otherExpense list"

subsection \<open>Maps and rows\<close>

text \<open>
  A \<^verbatim>\<open>Map\<close> is an association list in insertion order: \<^verbatim>\<open>set\<close> on a key that is
  present replaces the value where it stands, on a new key it appends
  (\<^const>\<open>AList.update\<close>); \<^verbatim>\<open>get\<close> is \<^const>\<open>map_of\<close>.
\<close>

type_synonym 'v jsmap = "(string \<times> 'v) list"

definition mapSet :: "string \<Rightarrow> 'v \<Rightarrow> 'v jsmap \<Rightarrow> 'v jsmap" where
  "mapSet k v m = AList.update k v m"

definition mapHas :: "'v jsmap \<Rightarrow> string \<Rightarrow> bool" where
  "mapHas m k = (map_of m k \<noteq> None)"

text \<open>\<^verbatim>\<open>x || 0\<close> for a number that may be \<open>undefined\<close>.\<close>

definition orZero :: "real option \<Rightarrow> real" where
  "orZero v = (case v of None \<Rightarrow> 0 | Some x \<Rightarrow> if x \<noteq> 0 then x else 0)"

text \<open>\<^verbatim>\<open>const initRow = () => months.map(() => 0)\<close>, a fresh row of 12 zeros.\<close>

definition initRow :: "real list" where
  "initRow = replicate 12 0"

text \<open>
  \<^verbatim>\<open>row[idx] += v\<close>. An index that is \<open>NaN\<close> writes a property that is no element of
  the array and leaves the 12 slots as they are. \<^verbatim>\<open>getMonth\<close> gives no index beyond 11
  (lemma \<open>MonthFromTime_less\<close>), so the write never lengthens a row.
\<close>

definition addAt :: "nat option \<Rightarrow> real \<Rightarrow> real list \<Rightarrow> real list" where
  "addAt idx v row = (case idx of None \<Rightarrow> row | Some i \<Rightarrow> row[i := row ! i + v])"

text \<open>
  \<^verbatim>\<open>if (!rows.has(name)) rows.set(name, initRow()); rows.get(name)[idx] += v;\<close>
  After the first statement the row is there, so \<^verbatim>\<open>get\<close> finds it.
\<close>

definition ensureRow :: "string \<Rightarrow> real list jsmap \<Rightarrow> real list jsmap" where
  "ensureRow name rows = (if mapHas rows name then rows else mapSet name initRow rows)"

definition rowAdd :: "string \<Rightarrow> nat option \<Rightarrow> real \<Rightarrow> real list jsmap \<Rightarrow> real list jsmap" where
  "rowAdd name idx v rows =
     (case map_of rows name of
        Some r \<Rightarrow> mapSet name (addAt idx v r) rows
      | None \<Rightarrow> rows)"

subsection \<open>Profit and loss\<close>

definition yearStart :: "int \<Rightarrow> string" where
  "yearStart year = showInt year @ ''-01-01''"

definition yearEnd :: "int \<Rightarrow> string" where
  "yearEnd year = showInt year @ ''-12-31''"

definition monthsOfYear :: "int \<Rightarrow> string list" where
  "monthsOfYear year = map (\<lambda>i. showInt year @ ''-'' @ pad2 (i + 1)) [0..<12]"

text \<open>The guard \<^verbatim>\<open>!d || d < yearStart || d > yearEnd\<close> that skips a record.\<close>

definition outsideYear :: "int \<Rightarrow> string option \<Rightarrow> bool" where
  "outsideYear year d =
     (case d of None \<Rightarrow> True
      | Some s \<Rightarrow> s = [] \<or> s < yearStart year \<or> s > yearEnd year)"

text \<open>\<^verbatim>\<open>new Date(d).getMonth()\<close> behind that guard.\<close>

definition monthIndex :: "host \<Rightarrow> string option \<Rightarrow> nat option" where
  "monthIndex h d = (case d of None \<Rightarrow> None | Some s \<Rightarrow> getMonth h (newDate h s))"

definition salesStep :: "host \<Rightarrow> int \<Rightarrow> sellEntry \<Rightarrow> real list \<Rightarrow> real list" where
  "salesStep h year e sales =
     (if outsideYear year (se_date e) then sales
      else addAt (monthIndex h (se_date e)) (parseNumber h (se_amount e)) sales)"

definition toLowerChar :: "char \<Rightarrow> char" where
  "toLowerChar c =
     (let n = (of_char c :: nat)
      in if (65 \<le> n \<and> n \<le> 90) \<or> (192 \<le> n \<and> n \<le> 222 \<and> n \<noteq> 215) then char_of (n + 32) else c)"

definition toLowerCase :: "string \<Rightarrow> string" where
  "toLowerCase s = map toLowerChar s"

text \<open>\<^verbatim>\<open>(inv.type || '').toLowerCase() === 'product'\<close>\<close>

definition isProduct :: "invoice \<Rightarrow> bool" where
  "isProduct invo =
     (toLowerCase (case inv_type invo of None \<Rightarrow> [] | Some t \<Rightarrow> t) = ''product'')"

definition invoiceStep ::
  "host \<Rightarrow> int \<Rightarrow> invoice \<Rightarrow> real list \<times> real list jsmap \<Rightarrow> real list \<times> real list jsmap" where
  "invoiceStep h year invo acc =
     (case acc of (cogs, invoiceExpenseRows) \<Rightarrow>
        if outsideYear year (inv_invoiceDate invo) then (cogs, invoiceExpenseRows)
        else (let idx = monthIndex h (inv_invoiceDate invo);
                  total = computeInvoiceTotal h (inv_items invo)
              in if isProduct invo then (addAt idx total cogs, invoiceExpenseRows)
                 else (cogs, rowAdd ''Invoice Expenses'' idx total
                               (ensureRow ''Invoice Expenses'' invoiceExpenseRows))))"

text \<open>\<^verbatim>\<open>new Map(state.expenseTypes.map(t => [t.id, t.name]))\<close>\<close>

definition typeById :: "expenseType list \<Rightarrow> string jsmap" where
  "typeById types = fold (\<lambda>t m. mapSet (et_id t) (et_name t) m) types []"

text \<open>\<^verbatim>\<open>typeById.get(exp.typeId) || 'Other'\<close>\<close>

definition typeName :: "expenseType list \<Rightarrow> otherExpense \<Rightarrow> string" where
  "typeName types expn =
     (case oe_typeId expn of
        None \<Rightarrow> ''Other''
      | Some i \<Rightarrow> (case map_of (typeById types) i of
                     None \<Rightarrow> ''Other''
                   | Some n \<Rightarrow> if n \<noteq> [] then n else ''Other''))"

definition expenseStep ::
  "host \<Rightarrow> int \<Rightarrow> expenseType list \<Rightarrow> otherExpense \<Rightarrow> real list jsmap \<Rightarrow> real list jsmap" where
  "expenseStep h year types expn expenseRows =
     (if outsideYear year (oe_date expn) then expenseRows
      else (let idx = monthIndex h (oe_date expn);
                name = typeName types expn
            in rowAdd name idx (parseNumber h (oe_amount expn)) (ensureRow name expenseRows)))"

text \<open>\<^verbatim>\<open>arr.reduce((a, b) => a + b, 0)\<close>\<close>

definition totals :: "real list \<Rightarrow> real" where
  "totals arr = fold (\<lambda>b a. a + b) arr 0"

text \<open>\<^verbatim>\<open>rows.forEach(r => r.forEach((v, i) => sums[i] += v))\<close> on \<open>sums = initRow()\<close>\<close>

definition sumCols :: "real list list \<Rightarrow> real list" where
  "sumCols rows =
     fold (\<lambda>r colSums. fold (\<lambda>i colSums. colSums[i := colSums ! i + r ! i]) [0..<length r] colSums)
       rows initRow"

record plTotals =
  t_sales :: real
  t_cogs :: real
  t_grossProfit :: real
  t_otherExpenses :: real
  t_ebit :: real
  t_net :: real

record plTable =
  months :: "string list"
  sales :: "real list"
  cogs :: "real list"
  grossProfit :: "real list"
  expenseRows :: "real list jsmap"
  otherExpensesSum :: "real list"
  ebit :: "real list"
  net :: "real list"
  plTotals :: plTotals

definition salesOf :: "host \<Rightarrow> ledger \<Rightarrow> int \<Rightarrow> real list" where
  "salesOf h st year = fold (salesStep h year) (sellEntries st) initRow"

definition invoiceSplit :: "host \<Rightarrow> ledger \<Rightarrow> int \<Rightarrow> real list \<times> real list jsmap" where
  "invoiceSplit h st year = fold (invoiceStep h year) (invoices st) (initRow, [])"

text \<open>\<^verbatim>\<open>expenseTypes.forEach(name => expenseRows.set(name, initRow()))\<close>\<close>

definition seedRows :: "string list \<Rightarrow> real list jsmap \<Rightarrow> real list jsmap" where
  "seedRows names rows = fold (\<lambda>name rows. mapSet name initRow rows) names rows"

definition expenseRowsOf :: "host \<Rightarrow> ledger \<Rightarrow> int \<Rightarrow> real list jsmap" where
  "expenseRowsOf h st year =
     (let byId = typeById (expenseTypes st);
          names = map snd byId;
          seeded = seedRows names (snd (invoiceSplit h st year))
      in fold (expenseStep h year (expenseTypes st)) (otherExpenses st) seeded)"

definition calcPLForYear :: "host \<Rightarrow> ledger \<Rightarrow> int \<Rightarrow> plTable" where
  "calcPLForYear h st year =
     (let sales = salesOf h st year;
          cogs = fst (invoiceSplit h st year);
          expenseRows = expenseRowsOf h st year;
          grossProfit = map (\<lambda>i. sales ! i - cogs ! i) [0..<length sales];
          otherExpensesSum = sumCols (map snd expenseRows);
          ebit = map (\<lambda>i. grossProfit ! i - otherExpensesSum ! i) [0..<length grossProfit];
          net = ebit
      in \<lparr> months = monthsOfYear year,
           sales = sales, cogs = cogs, grossProfit = grossProfit,
           expenseRows = expenseRows, otherExpensesSum = otherExpensesSum,
           ebit = ebit, net = net,
           plTotals = \<lparr> t_sales = totals sales, t_cogs = totals cogs,
                         t_grossProfit = totals grossProfit,
                         t_otherExpenses = totals otherExpensesSum,
                         t_ebit = totals ebit, t_net = totals net \<rparr> \<rparr>)"

subsection \<open>The drill-down of a profit and loss cell\<close>

text \<open>
  \<^verbatim>\<open>openPLDetails({ year, month, label })\<close> lists the records behind a cell; \<open>month\<close> is
  the two-digit string of the cell's column. The embedding keeps the records that the two
  \<^verbatim>\<open>filter\<close> calls of each branch select, in their order, and leaves the rendering out.
\<close>

datatype plDetails = InvoiceDetails "invoice list" | ExpenseDetails "otherExpense list"

definition startsWith :: "string \<Rightarrow> string \<Rightarrow> bool" where
  "startsWith s p = (take (length p) s = p)"

definition orEmpty :: "string option \<Rightarrow> string" where
  "orEmpty s = (case s of None \<Rightarrow> [] | Some t \<Rightarrow> t)"

definition openPLDetails :: "ledger \<Rightarrow> int \<Rightarrow> string \<Rightarrow> string \<Rightarrow> plDetails" where
  "openPLDetails st year month label =
     (let monthStr = showInt year @ ''-'' @ month
      in if label = ''Invoice Expenses''
         then InvoiceDetails
                (filter (\<lambda>invo. startsWith (orEmpty (inv_invoiceDate invo)) monthStr)
                   (filter (\<lambda>invo. \<not> isProduct invo) (invoices st)))
         else if label = ''Cost of Goods Sold (Purchases)''
         then InvoiceDetails
                (filter (\<lambda>invo. startsWith (orEmpty (inv_invoiceDate invo)) monthStr)
                   (filter (\<lambda>invo. isProduct invo) (invoices st)))
         else (let type = find (\<lambda>t. et_name t = label) (expenseTypes st)
               in ExpenseDetails
                    (filter (\<lambda>e. startsWith (orEmpty (oe_date e)) monthStr)
                       (filter (\<lambda>e. oe_typeId e
                                        = Some (case type of None \<Rightarrow> [] | Some t \<Rightarrow> et_id t))
                          (otherExpenses st)))))"

subsection \<open>Month buckets and the dashboard series\<close>

text \<open>
  \<^verbatim>\<open>monthKey(dateStr)\<close>: \<open>Unknown\<close> for a date that is absent, empty or invalid, else the
  local year and the two-digit local month.
\<close>

definition monthKey :: "host \<Rightarrow> string option \<Rightarrow> string" where
  "monthKey h dateStr =
     (case dateStr of
        None \<Rightarrow> ''Unknown''
      | Some s \<Rightarrow>
          if s = [] then ''Unknown''
          else (case newDate h s of
                  None \<Rightarrow> ''Unknown''
                | Some t \<Rightarrow> showInt (YearFromTime (LocalTime h t)) @ ''-''
                              @ pad2 (MonthFromTime (LocalTime h t) + 1)))"

text \<open>
  \<^verbatim>\<open>fromDate && e.date < fromDate\<close> and \<^verbatim>\<open>toDate && e.date > toDate\<close>. A date that is
  absent is converted to a number for the comparison, which is then false.
\<close>

definition beforeFrom :: "string \<Rightarrow> string option \<Rightarrow> bool" where
  "beforeFrom fromDate d = (fromDate \<noteq> [] \<and> (case d of None \<Rightarrow> False | Some s \<Rightarrow> s < fromDate))"

definition afterTo :: "string \<Rightarrow> string option \<Rightarrow> bool" where
  "afterTo toDate d = (toDate \<noteq> [] \<and> (case d of None \<Rightarrow> False | Some s \<Rightarrow> s > toDate))"

text \<open>\<^verbatim>\<open>map.set(key, (map.get(key) || 0) + v)\<close>\<close>

definition bump :: "string \<Rightarrow> real \<Rightarrow> real jsmap \<Rightarrow> real jsmap" where
  "bump key v m = mapSet key (orZero (map_of m key) + v) m"

record series =
  labels :: "string list"
  vals :: "real list"

definition mapToSortedSeries :: "real jsmap \<Rightarrow> series" where
  "mapToSortedSeries m =
     (let labels = sort (map fst m)
      in \<lparr> labels = labels, vals = map (\<lambda>l. orZero (map_of m l)) labels \<rparr>)"

definition sellStep ::
  "host \<Rightarrow> string \<Rightarrow> string \<Rightarrow> sellEntry \<Rightarrow> real jsmap \<times> real jsmap \<Rightarrow> real jsmap \<times> real jsmap" where
  "sellStep h fromDate toDate e acc =
     (case acc of (fiscalMap, nonFiscalMap) \<Rightarrow>
        if beforeFrom fromDate (se_date e) then (fiscalMap, nonFiscalMap)
        else if afterTo toDate (se_date e) then (fiscalMap, nonFiscalMap)
        else (let key = monthKey h (se_date e)
              in if se_type e = Some ''fiscal''
                 then (bump key (parseNumber h (se_amount e)) fiscalMap, nonFiscalMap)
                 else (fiscalMap, bump key (parseNumber h (se_amount e)) nonFiscalMap)))"

record sellSeries =
  fiscal :: series
  nonFiscal :: series

definition aggregateByMonthSell :: "host \<Rightarrow> ledger \<Rightarrow> string \<Rightarrow> string \<Rightarrow> sellSeries" where
  "aggregateByMonthSell h st fromDate toDate =
     (case fold (sellStep h fromDate toDate) (sellEntries st) ([], []) of
        (fiscalMap, nonFiscalMap) \<Rightarrow>
          \<lparr> fiscal = mapToSortedSeries fiscalMap, nonFiscal = mapToSortedSeries nonFiscalMap \<rparr>)"

definition purchaseStep :: "host \<Rightarrow> string \<Rightarrow> string \<Rightarrow> invoice \<Rightarrow> real jsmap \<Rightarrow> real jsmap" where
  "purchaseStep h fromDate toDate invo purchasesMap =
     (if beforeFrom fromDate (inv_invoiceDate invo) then purchasesMap
      else if afterTo toDate (inv_invoiceDate invo) then purchasesMap
      else bump (monthKey h (inv_invoiceDate invo)) (computeInvoiceTotal h (inv_items invo))
             purchasesMap)"

definition otherStep :: "host \<Rightarrow> string \<Rightarrow> string \<Rightarrow> otherExpense \<Rightarrow> real jsmap \<Rightarrow> real jsmap" where
  "otherStep h fromDate toDate expn expensesMap =
     (if beforeFrom fromDate (oe_date expn) then expensesMap
      else if afterTo toDate (oe_date expn) then expensesMap
      else bump (monthKey h (oe_date expn)) (parseNumber h (oe_amount expn)) expensesMap)"

record expenseSeries =
  purchases :: series
  expenses :: series

definition aggregateByMonthExpenses :: "host \<Rightarrow> ledger \<Rightarrow> string \<Rightarrow> string \<Rightarrow> expenseSeries" where
  "aggregateByMonthExpenses h st fromDate toDate =
     \<lparr> purchases = mapToSortedSeries (fold (purchaseStep h fromDate toDate) (invoices st) []),
       expenses = mapToSortedSeries (fold (otherStep h fromDate toDate) (otherExpenses st) []) \<rparr>"

subsection \<open>Aligning series\<close>

text \<open>\<^verbatim>\<open>labelSet.add(l)\<close> on a \<^verbatim>\<open>Set\<close> kept in insertion order.\<close>

definition setAdd :: "string \<Rightarrow> string list \<Rightarrow> string list" where
  "setAdd l labelSet = (if l \<in> set labelSet then labelSet else labelSet @ [l])"





subsection \<open>The invoice total in the words of the specification\<close>

text \<open>
  The specification's reading of a line item: a quantity that is absent counts as 1, a
  quantity or price that is negative or not a number counts as 0.
\<close>

definition specQty :: "host \<Rightarrow> jsval \<Rightarrow> real" where
  "specQty h v =
     (if v = JUndefined then 1
      else (case toNumber h v of None \<Rightarrow> 0 | Some n \<Rightarrow> if n < 0 then 0 else n))"

definition specPrice :: "host \<Rightarrow> jsval \<Rightarrow> real" where
  "specPrice h v = (case toNumber h v of None \<Rightarrow> 0 | Some n \<Rightarrow> if n < 0 then 0 else n)"

definition specInvoiceTotal :: "host \<Rightarrow> lineItem list \<Rightarrow> real" where
  "specInvoiceTotal h items = (\<Sum>i\<leftarrow>items. specQty h (qty i) * specPrice h (price i))"

subsection \<open>Notions used in the statements\<close>

text \<open>
  A date lies in a year when it is a string between the year's first and last day in the
  lexicographic order.
\<close>

definition dateInYear :: "int \<Rightarrow> string option \<Rightarrow> bool" where
  "dateInYear year d = (case d of None \<Rightarrow> False | Some s \<Rightarrow> yearStart year \<le> s \<and> s \<le> yearEnd year)"

text \<open>The value of a row of a map of rows at a month, 0 when the map has no such row.\<close>

definition cell :: "real list jsmap \<Rightarrow> string \<Rightarrow> nat \<Rightarrow> real" where
  "cell rows name m = (case map_of rows name of None \<Rightarrow> 0 | Some r \<Rightarrow> r ! m)"

text \<open>Every row of a map has 12 slots; the accumulator of the invoice loop is well formed.\<close>

definition rows12 :: "real list jsmap \<Rightarrow> bool" where
  "rows12 rows = list_all (\<lambda>r. length r = 12) (map snd rows)"

definition accOK :: "real list \<times> real list jsmap \<Rightarrow> bool" where
  "accOK acc = (length (fst acc) = 12 \<and> rows12 (snd acc))"

text \<open>The elements of a list, each once, in the order of their first occurrence.\<close>

fun firstOccurrences :: "string list \<Rightarrow> string list" where
  "firstOccurrences [] = []"
| "firstOccurrences (x # xs) = x # firstOccurrences (filter (\<lambda>y. y \<noteq> x) xs)"



text \<open>
  A small ledger: the scenario of the specification, with a sale of the year before, an
  invoice that is no product invoice and an expense of an unknown type added.
\<close>

definition sampleLedger :: ledger where
  "sampleLedger =
     \<lparr> sellEntries =
         [\<lparr>se_id = ''s1'', se_date = Some ''2024-01-15'', se_type = Some ''fiscal'', se_amount = JNum 100\<rparr>,
          \<lparr>se_id = ''s2'', se_date = Some ''2023-12-31'', se_type = Some ''fiscal'', se_amount = JNum 9\<rparr>],
       invoices =
         [\<lparr>inv_id = ''i1'', inv_invoiceDate = Some ''2024-01-20'', inv_type = Some ''Product'',
           inv_items = [\<lparr>qty = JNum 2, price = JNum 30\<rparr>]\<rparr>,
          \<lparr>inv_id = ''i2'', inv_invoiceDate = Some ''2024-03-05'', inv_type = Some ''service'',
           inv_items = [\<lparr>qty = JUndefined, price = JNum 8\<rparr>]\<rparr>],
       expenseTypes = [\<lparr>et_id = ''wage'', et_name = ''Wage''\<rparr>, \<lparr>et_id = ''rent'', et_name = ''Rent''\<rparr>],
       otherExpenses =
         [\<lparr>oe_id = ''o1'', oe_date = Some ''2024-02-01'', oe_typeId = Some ''rent'', oe_amount = JNum 50\<rparr>,
          \<lparr>oe_id = ''o2'', oe_date = Some ''2024-02-10'', oe_typeId = Some ''zzz'', oe_amount = JNum 7\<rparr>] \<rparr>"

text \<open>A ledger whose only expense type is named like the row of the invoice expenses.\<close>

definition collisionLedger :: ledger where
  "collisionLedger =
     \<lparr> sellEntries = [], invoices = [],
       expenseTypes = [\<lparr>et_id = ''ext_1'', et_name = ''Invoice Expenses''\<rparr>],
       otherExpenses = [] \<rparr>"

text \<open>A date field for which \<^verbatim>\<open>monthKey\<close> has no month: absent, empty or not parseable.\<close>

definition undated :: "host \<Rightarrow> string option \<Rightarrow> bool" where
  "undated h d = (case d of None \<Rightarrow> True | Some s \<Rightarrow> s = [] \<or> newDate h s = None)"

text \<open>The fiscal (\<open>True\<close>) or the non-fiscal (\<open>False\<close>) map of the pair the sell loop builds.\<close>

definition pick :: "bool \<Rightarrow> 'a \<times> 'a \<Rightarrow> 'a" where
  "pick b acc = (if b then fst acc else snd acc)"

text \<open>A ledger with records whose date is the empty string or no date at all.\<close>

definition undatedLedger :: ledger where
  "undatedLedger =
     \<lparr> sellEntries =
         [\<lparr>se_id = ''s1'', se_date = Some ''2024-01-15'', se_type = Some ''fiscal'', se_amount = JNum 100\<rparr>,
          \<lparr>se_id = ''s2'', se_date = Some [], se_type = Some ''fiscal'', se_amount = JNum 9\<rparr>,
          \<lparr>se_id = ''s3'', se_date = Some ''soon'', se_type = Some ''fiscal'', se_amount = JNum 4\<rparr>],
       invoices =
         [\<lparr>inv_id = ''i1'', inv_invoiceDate = Some [], inv_type = Some ''product'',
           inv_items = [\<lparr>qty = JNum 2, price = JNum 30\<rparr>]\<rparr>],
       expenseTypes = [],
       otherExpenses =
         [\<lparr>oe_id = ''o1'', oe_date = Some [], oe_typeId = Some ''rent'', oe_amount = JNum 50\<rparr>] \<rparr>"


section \<open>Invoice totals: the sum over the line items\<close>

lemma fold_plus_sum_list:
  fixes f :: "'a \<Rightarrow> real"
  shows "fold (\<lambda>x s. s + f x) xs a = a + (\<Sum>x\<leftarrow>xs. f x)"
  by (induction xs arbitrary: a) simp_all

lemma qty_or_one:
  "parseNumber h (jsOr v (JNum 1)) =
     (case v of
        JUndefined \<Rightarrow> 1
      | JNull \<Rightarrow> 1
      | JBool b \<Rightarrow> 1
      | JNum r \<Rightarrow> if r = 0 then 1 else r
      | JStr s \<Rightarrow> if s = [] then 1 else parseNumber h (JStr s))"
  by (cases v) (simp_all add: jsOr_def parseNumber_def)

text \<open>
  C5, as amended. The total of the current script is the sum over the items of
  quantity times price, where the quantity is 1 when the field is absent, \<open>null\<close>, a
  boolean, the number 0 or the empty string, is the number itself when the field is any
  other number (a negative one included), and is \<^verbatim>\<open>parseNumber\<close> of a non-empty string; the
  price is \<^verbatim>\<open>parseNumber\<close> of the field, which keeps every number (a negative one included)
  and is 0 exactly for what does not convert to a finite number. The total of no items
  is 0. The older script sums the prices alone. Both are total functions: no input makes
  them raise.
\<close>

theorem computeInvoiceTotal_sum:
  "computeInvoiceTotal h [] = 0
   \<and> computeInvoiceTotal h items =
       (\<Sum>i\<leftarrow>items.
          (case qty i of
             JUndefined \<Rightarrow> 1
           | JNull \<Rightarrow> 1
           | JBool b \<Rightarrow> 1
           | JNum r \<Rightarrow> if r = 0 then 1 else r
           | JStr s \<Rightarrow> if s = [] then 1 else parseNumber h (JStr s))
          * parseNumber h (price i))
   \<and> parseNumber h (JNum r) = r
   \<and> parseNumber h v = (case toNumber h v of None \<Rightarrow> 0 | Some n \<Rightarrow> n)
   \<and> computeInvoiceTotal_legacy h items = (\<Sum>i\<leftarrow>items. parseNumber h (price i))"
proof -
  have "computeInvoiceTotal h items =
          (\<Sum>i\<leftarrow>items. parseNumber h (jsOr (qty i) (JNum 1)) * parseNumber h (price i))"
    unfolding computeInvoiceTotal_def by (simp add: fold_plus_sum_list)
  moreover have "computeInvoiceTotal_legacy h items = (\<Sum>i\<leftarrow>items. parseNumber h (price i))"
    unfolding computeInvoiceTotal_legacy_def by (simp add: fold_plus_sum_list)
  moreover have "computeInvoiceTotal h [] = 0"
    by (simp add: computeInvoiceTotal_def)
  moreover have "parseNumber h (JNum r) = r"
    by (simp add: parseNumber_def)
  moreover have "parseNumber h v = (case toNumber h v of None \<Rightarrow> 0 | Some n \<Rightarrow> n)"
    by (simp add: parseNumber_def split: option.splits)
  ultimately show ?thesis
    by (simp add: qty_or_one)
qed

text \<open>
  C5 as the specification states it fails: a negative quantity is not coerced to 0. One
  item of quantity \<open>-2\<close> and price \<open>3\<close> totals \<open>-6\<close>, where the specification's sum is 0.
\<close>

theorem computeInvoiceTotal_negative_counterexample:
  "computeInvoiceTotal utcHost [\<lparr>qty = JNum (- 2), price = JNum 3\<rparr>] = - 6
   \<and> specInvoiceTotal utcHost [\<lparr>qty = JNum (- 2), price = JNum 3\<rparr>] = 0
   \<and> computeInvoiceTotal utcHost [\<lparr>qty = JNum (- 2), price = JNum 3\<rparr>]
       \<noteq> specInvoiceTotal utcHost [\<lparr>qty = JNum (- 2), price = JNum 3\<rparr>]"
  by (simp add: computeInvoiceTotal_def specInvoiceTotal_def specQty_def specPrice_def
        parseNumber_def jsOr_def)

section \<open>Rows, maps and loops\<close>


lemma MonthFromTime_less: "MonthFromTime t < 12"
  by (simp add: MonthFromTime_def Let_def)

lemma length_initRow: "length initRow = 12"
  by (simp add: initRow_def)

lemma nth_initRow: "m < 12 \<Longrightarrow> initRow ! m = 0"
  by (simp add: initRow_def)

lemma length_addAt: "length (addAt idx v row) = length row"
  by (simp add: addAt_def split: option.splits)

lemma nth_addAt:
  "m < length row \<Longrightarrow> addAt idx v row ! m = row ! m + (if idx = Some m then v else 0)"
  by (auto simp: addAt_def nth_list_update split: option.splits)



lemma monthIndex_none_or_less: "monthIndex h d = Some i \<Longrightarrow> i < 12"
  by (auto simp: monthIndex_def getMonth_def MonthFromTime_less split: option.splits)


lemma yearStart_nonempty: "yearStart year \<noteq> []"
  by (simp add: yearStart_def)

lemma Nil_less_iff: "([] :: string) < s \<longleftrightarrow> s \<noteq> []"
  by (cases s) simp_all

lemma outsideYear_iff: "outsideYear year d \<longleftrightarrow> \<not> dateInYear year d"
  by (auto simp: outsideYear_def dateInYear_def yearStart_nonempty Nil_less_iff not_le split: option.splits)



subsection \<open>The sales row\<close>

lemma length_salesStep: "length (salesStep h year e row) = length row"
  by (simp add: salesStep_def length_addAt)

lemma length_fold_salesStep: "length (fold (salesStep h year) es row) = length row"
  by (induction es arbitrary: row) (simp_all add: length_salesStep)






subsection \<open>Maps of rows\<close>

lemma snd_set_update: "snd ` set (AList.update k v al) \<subseteq> insert v (snd ` set al)"
  by (induction al) auto

lemma rows12_mapSet:
  assumes "rows12 rows" and "length r = 12"
  shows "rows12 (mapSet k r rows)"
proof -
  have "\<forall>x\<in>insert r (snd ` set rows). length x = 12"
    using assms by (auto simp: rows12_def list_all_iff)
  then have "\<forall>x\<in>snd ` set (AList.update k r rows). length x = 12"
    using snd_set_update[of k r rows] by blast
  then show ?thesis
    by (simp add: rows12_def mapSet_def list_all_iff)
qed

lemma rows12_map_of: "rows12 rows \<Longrightarrow> map_of rows k = Some r \<Longrightarrow> length r = 12"
  by (auto simp: rows12_def list_all_iff dest!: map_of_SomeD) 

lemma map_of_mapSet: "map_of (mapSet k v m) = (map_of m)(k \<mapsto> v)"
  by (simp add: mapSet_def update_conv')

lemma keys_mapSet:
  "map fst (mapSet k v m) = (if k \<in> set (map fst m) then map fst m else map fst m @ [k])"
  by (simp add: mapSet_def update_keys)

lemma rows12_ensureRow: "rows12 rows \<Longrightarrow> rows12 (ensureRow n rows)"
  by (simp add: ensureRow_def rows12_mapSet length_initRow)

lemma rows12_rowAdd: "rows12 rows \<Longrightarrow> rows12 (rowAdd n idx v rows)"
  by (auto simp: rowAdd_def rows12_mapSet length_addAt rows12_map_of split: option.splits)

lemma map_of_ensureRow:
  "map_of (ensureRow n rows) k =
     (if k = n \<and> map_of rows n = None then Some initRow else map_of rows k)"
  by (auto simp: ensureRow_def mapHas_def map_of_mapSet)

lemma map_of_rowAdd:
  "map_of (rowAdd n idx v rows) k =
     (if k = n then map_option (addAt idx v) (map_of rows n) else map_of rows k)"
  by (auto simp: rowAdd_def map_of_mapSet split: option.splits)

lemma mapHas_iff: "mapHas m k \<longleftrightarrow> k \<in> set (map fst m)"
  by (simp add: mapHas_def map_of_eq_None_iff)

lemma keys_ensureRow:
  "map fst (ensureRow n rows) = (if n \<in> set (map fst rows) then map fst rows else map fst rows @ [n])"
  by (simp add: ensureRow_def mapHas_iff keys_mapSet)

lemma keys_rowAdd: "map fst (rowAdd n idx v rows) = map fst rows"
proof (cases "map_of rows n")
  case None
  then show ?thesis by (simp add: rowAdd_def)
next
  case (Some r)
  then have "n \<in> set (map fst rows)"
    using mapHas_iff[of rows n] by (simp add: mapHas_def)
  with Some show ?thesis by (simp add: rowAdd_def keys_mapSet)
qed

lemma cell_rowAdd_ensureRow:
  assumes "rows12 rows" and "m < 12"
  shows "cell (rowAdd n idx v (ensureRow n rows)) k m
         = cell rows k m + (if k = n \<and> idx = Some m then v else 0)"
proof (cases "k = n")
  case False
  then show ?thesis by (simp add: cell_def map_of_rowAdd map_of_ensureRow)
next
  case True
  show ?thesis
  proof (cases "map_of rows n")
    case None
    with True assms show ?thesis
      by (simp add: cell_def map_of_rowAdd map_of_ensureRow nth_addAt length_initRow nth_initRow)
  next
    case (Some r)
    then have "length r = 12" using assms(1) rows12_map_of by blast
    with True Some assms show ?thesis
      by (simp add: cell_def map_of_rowAdd map_of_ensureRow nth_addAt)
  qed
qed

subsection \<open>Column sums\<close>

lemma addRow_nth:
  fixes r s :: "real list"
  assumes "n \<le> length s"
  shows "length (fold (\<lambda>i c. c[i := c ! i + r ! i]) [0..<n] s) = length s
       \<and> (\<forall>m<length s. fold (\<lambda>i c. c[i := c ! i + r ! i]) [0..<n] s ! m = (if m < n then s ! m + r ! m else s ! m))"
  using assms
proof (induction n)
  case 0
  then show ?case by simp
next
  case (Suc n)
  then show ?case by (auto simp: nth_list_update less_Suc_eq)
qed

lemma sumCols_fold:
  fixes rows :: "real list list"
  assumes "list_all (\<lambda>r. length r = 12) rows" and "length s = 12"
  shows "length (fold (\<lambda>r c. fold (\<lambda>i c. c[i := c ! i + r ! i]) [0..<length r] c) rows s) = 12
       \<and> (\<forall>m<12. fold (\<lambda>r c. fold (\<lambda>i c. c[i := c ! i + r ! i]) [0..<length r] c) rows s ! m
                  = s ! m + (\<Sum>r\<leftarrow>rows. r ! m))"
  using assms
proof (induction rows arbitrary: s)
  case Nil
  then show ?case by simp
next
  case (Cons r rows)
  let ?s' = "fold (\<lambda>i c. c[i := c ! i + r ! i]) [0..<length r] s"
  have r: "length r = 12" using Cons.prems(1) by simp
  have s': "length ?s' = 12 \<and> (\<forall>m<12. ?s' ! m = s ! m + r ! m)"
    using addRow_nth[of "length r" s r] r Cons.prems(2) by simp
  have "length (fold (\<lambda>r c. fold (\<lambda>i c. c[i := c ! i + r ! i]) [0..<length r] c) rows ?s') = 12
       \<and> (\<forall>m<12. fold (\<lambda>r c. fold (\<lambda>i c. c[i := c ! i + r ! i]) [0..<length r] c) rows ?s' ! m
                  = ?s' ! m + (\<Sum>r\<leftarrow>rows. r ! m))"
    using Cons.prems(1) s' by (intro Cons.IH) simp_all
  with s' show ?case by (simp add: add.assoc)
qed

lemma sumCols_nth:
  assumes "list_all (\<lambda>r. length r = 12) rows" and "m < 12"
  shows "sumCols rows ! m = (\<Sum>r\<leftarrow>rows. r ! m)" and "length (sumCols rows) = 12"
  using sumCols_fold[OF assms(1) length_initRow] assms(2)
  by (simp_all add: sumCols_def nth_initRow)


subsection \<open>Loops that add\<close>

lemma fold_invariant:
  assumes "\<And>x a. x \<in> set xs \<Longrightarrow> I a \<Longrightarrow> I (step x a)" and "I a"
  shows "I (fold step xs a)"
  using assms by (induction xs arbitrary: a) simp_all

lemma fold_additive:
  fixes g :: "'b \<Rightarrow> real"
  assumes "\<And>x a. x \<in> set xs \<Longrightarrow> I a \<Longrightarrow> I (step x a)"
    and "\<And>x a. x \<in> set xs \<Longrightarrow> I a \<Longrightarrow> g (step x a) = g a + (if P x then f x else 0)"
    and "I a"
  shows "g (fold step xs a) = g a + (\<Sum>x\<leftarrow>filter P xs. f x)"
  using assms
proof (induction xs arbitrary: a)
  case Nil
  then show ?case by simp
next
  case (Cons x xs)
  have "g (fold step xs (step x a)) = g (step x a) + (\<Sum>x\<leftarrow>filter P xs. f x)"
    using Cons.prems by (intro Cons.IH) simp_all
  moreover have "g (step x a) = g a + (if P x then f x else 0)"
    using Cons.prems by simp
  ultimately show ?case by simp
qed

subsection \<open>The invoice loop\<close>

lemma accOK_invoiceStep: "accOK acc \<Longrightarrow> accOK (invoiceStep h year invo acc)"
  by (cases acc)
    (simp add: accOK_def invoiceStep_def Let_def length_addAt rows12_rowAdd rows12_ensureRow)

lemma accOK_init: "accOK (initRow, [])"
  by (simp add: accOK_def length_initRow rows12_def)

lemma accOK_invoiceSplit: "accOK (invoiceSplit h st year)"
  unfolding invoiceSplit_def
  by (rule fold_invariant[where I = accOK]) (simp_all add: accOK_invoiceStep accOK_init)





lemma invoiceStep_keys:
  "map fst (snd (invoiceStep h year invo acc))
   = (if dateInYear year (inv_invoiceDate invo) \<and> \<not> isProduct invo
         \<and> ''Invoice Expenses'' \<notin> set (map fst (snd acc))
      then map fst (snd acc) @ [''Invoice Expenses''] else map fst (snd acc))"
  by (cases acc)
    (simp add: invoiceStep_def Let_def outsideYear_iff keys_rowAdd keys_ensureRow)

lemma fold_invoiceStep_keys:
  assumes "map fst (snd acc) = [] \<or> map fst (snd acc) = [''Invoice Expenses'']"
  shows "map fst (snd (fold (invoiceStep h year) invs acc))
         = (if map fst (snd acc) = [] \<and> \<not> (\<exists>invo\<in>set invs. dateInYear year (inv_invoiceDate invo) \<and> \<not> isProduct invo)
            then [] else [''Invoice Expenses''])"
  using assms
proof (induction invs arbitrary: acc)
  case Nil
  then show ?case by auto
next
  case (Cons invo invs)
  have k: "map fst (snd (invoiceStep h year invo acc))
           = (if dateInYear year (inv_invoiceDate invo) \<and> \<not> isProduct invo
                 \<and> ''Invoice Expenses'' \<notin> set (map fst (snd acc))
              then map fst (snd acc) @ [''Invoice Expenses''] else map fst (snd acc))"
    by (rule invoiceStep_keys)
  then have "map fst (snd (invoiceStep h year invo acc)) = []
             \<or> map fst (snd (invoiceStep h year invo acc)) = [''Invoice Expenses'']"
    using Cons.prems by auto
  from Cons.IH[OF this] k Cons.prems show ?case
    by (auto split: if_splits)
qed

lemma invoiceSplit_keys:
  "map fst (snd (invoiceSplit h st year))
   = (if \<exists>invo\<in>set (invoices st). dateInYear year (inv_invoiceDate invo) \<and> \<not> isProduct invo
      then [''Invoice Expenses''] else [])"
  unfolding invoiceSplit_def
  by (subst fold_invoiceStep_keys) auto


subsection \<open>The catalog of expense types\<close>

lemma keys_mapSet_setAdd: "map fst (mapSet k v m) = setAdd k (map fst m)"
  by (simp add: keys_mapSet setAdd_def)

lemma fold_setAdd_firstOccurrences:
  "fold setAdd ns ks = ks @ firstOccurrences (filter (\<lambda>n. n \<notin> set ks) ns)"
proof (induction ns arbitrary: ks)
  case Nil
  then show ?case by simp
next
  case (Cons n ns)
  show ?case
  proof (cases "n \<in> set ks")
    case True
    then show ?thesis using Cons.IH[of ks] by (simp add: setAdd_def)
  next
    case False
    have "filter (\<lambda>y. y \<notin> set (ks @ [n])) ns = filter (\<lambda>y. y \<noteq> n) (filter (\<lambda>y. y \<notin> set ks) ns)"
      by (auto intro: filter_cong)
    with False show ?thesis using Cons.IH[of "ks @ [n]"] by (simp add: setAdd_def)
  qed
qed

lemma set_fold_setAdd: "set (fold setAdd ns ks) = set ks \<union> set ns"
  by (induction ns arbitrary: ks) (auto simp: setAdd_def)




lemma fold_typeById_distinct:
  assumes "distinct (map et_id types)" and "set (map et_id types) \<inter> set (map fst m) = {}"
  shows "fold (\<lambda>t m. mapSet (et_id t) (et_name t) m) types m = m @ map (\<lambda>t. (et_id t, et_name t)) types"
  using assms
proof (induction types arbitrary: m)
  case Nil
  then show ?case by simp
next
  case (Cons t types)
  have "mapSet (et_id t) (et_name t) m = m @ [(et_id t, et_name t)]"
    using Cons.prems(2) by (induction m) (auto simp: mapSet_def)
  moreover have "fold (\<lambda>t m. mapSet (et_id t) (et_name t) m) types (m @ [(et_id t, et_name t)])
                 = (m @ [(et_id t, et_name t)]) @ map (\<lambda>t. (et_id t, et_name t)) types"
    using Cons.prems by (intro Cons.IH) auto
  ultimately show ?case by simp
qed

lemma typeById_distinct:
  "distinct (map et_id types) \<Longrightarrow> map snd (typeById types) = map et_name types"
  by (simp add: typeById_def fold_typeById_distinct comp_def)

lemma typeName_cases:
  "typeName types expn = ''Other'' \<or> typeName types expn \<in> set (map snd (typeById types))"
  by (auto simp: typeName_def split: option.splits dest!: map_of_SomeD intro: rev_image_eqI)


subsection \<open>The expense rows\<close>

lemma rows12_expenseStep: "rows12 rows \<Longrightarrow> rows12 (expenseStep h year types expn rows)"
  by (simp add: expenseStep_def Let_def rows12_rowAdd rows12_ensureRow)

lemma cell_expenseStep:
  assumes "rows12 rows" and "m < 12"
  shows "cell (expenseStep h year types expn rows) k m
         = cell rows k m
           + (if dateInYear year (oe_date expn) \<and> typeName types expn = k
                 \<and> monthIndex h (oe_date expn) = Some m
              then parseNumber h (oe_amount expn) else 0)"
  using assms
  by (auto simp: expenseStep_def Let_def outsideYear_iff cell_rowAdd_ensureRow)

lemma map_of_expenseStep_other:
  "\<not> (dateInYear year (oe_date expn) \<and> typeName types expn = k)
   \<Longrightarrow> map_of (expenseStep h year types expn rows) k = map_of rows k"
  by (auto simp: expenseStep_def Let_def outsideYear_iff map_of_rowAdd map_of_ensureRow)

lemma keys_expenseStep:
  "map fst (expenseStep h year types expn rows)
   = (if dateInYear year (oe_date expn) then setAdd (typeName types expn) (map fst rows)
      else map fst rows)"
  by (simp add: expenseStep_def Let_def outsideYear_iff keys_rowAdd keys_ensureRow setAdd_def)

lemma keys_fold_expenseStep:
  assumes "\<forall>e\<in>set exps. typeName types e = ''Other'' \<or> typeName types e \<in> set (map fst rows)"
  shows "map fst (fold (expenseStep h year types) exps rows)
         = map fst rows
           @ (if ''Other'' \<notin> set (map fst rows)
                 \<and> (\<exists>e\<in>set exps. dateInYear year (oe_date e) \<and> typeName types e = ''Other'')
              then [''Other''] else [])"
  using assms
proof (induction exps arbitrary: rows)
  case Nil
  then show ?case by simp
next
  case (Cons e exps)
  let ?rows' = "expenseStep h year types e rows"
  have k: "map fst ?rows'
           = (if dateInYear year (oe_date e) then setAdd (typeName types e) (map fst rows)
              else map fst rows)"
    by (rule keys_expenseStep)
  have sub: "set (map fst rows) \<subseteq> set (map fst ?rows')"
    unfolding k by (auto simp: setAdd_def)
  have "\<forall>e\<in>set exps. typeName types e = ''Other'' \<or> typeName types e \<in> set (map fst ?rows')"
    using Cons.prems sub by (meson list.set_intros(2) subsetD)
  from Cons.IH[OF this] have ih: "map fst (fold (expenseStep h year types) exps ?rows')
         = map fst ?rows'
           @ (if ''Other'' \<notin> set (map fst ?rows')
                 \<and> (\<exists>e\<in>set exps. dateInYear year (oe_date e) \<and> typeName types e = ''Other'')
              then [''Other''] else [])" .
  have e: "typeName types e = ''Other'' \<or> typeName types e \<in> set (map fst rows)"
    using Cons.prems by simp
  show ?case
  proof (cases "dateInYear year (oe_date e)")
    case False
    with k ih show ?thesis by simp
  next
    case True
    note inY = True
    show ?thesis
    proof (cases "typeName types e \<in> set (map fst rows)")
      case True
      with inY k have "map fst ?rows' = map fst rows" by (simp add: setAdd_def)
      with ih True inY show ?thesis by force
    next
      case False
      with e have o: "typeName types e = ''Other''" by simp
      with False inY k have "map fst ?rows' = map fst rows @ [''Other'']" by (simp add: setAdd_def)
      with ih o False inY show ?thesis by force
    qed
  qed
qed

subsection \<open>The rows of the table\<close>


lemma expenseRowsOf_alt:
  "expenseRowsOf h st year =
     fold (expenseStep h year (expenseTypes st)) (otherExpenses st)
       (seedRows (map snd (typeById (expenseTypes st))) (snd (invoiceSplit h st year)))"
  by (simp add: expenseRowsOf_def seedRows_def Let_def)

lemma map_of_seedRows:
  "map_of (seedRows names rows) k = (if k \<in> set names then Some initRow else map_of rows k)"
  unfolding seedRows_def
  by (induction names arbitrary: rows) (auto simp: map_of_mapSet)

lemma keys_seedRows: "map fst (seedRows names rows) = fold setAdd names (map fst rows)"
  unfolding seedRows_def
  by (induction names arbitrary: rows) (simp_all add: keys_mapSet_setAdd)

lemma rows12_seedRows: "rows12 rows \<Longrightarrow> rows12 (seedRows names rows)"
  unfolding seedRows_def
  by (rule fold_invariant[where I = rows12]) (simp_all add: rows12_mapSet length_initRow)

lemma rows12_expenseRowsOf: "rows12 (expenseRowsOf h st year)"
  unfolding expenseRowsOf_alt
proof (rule fold_invariant[where I = rows12])
  show "rows12 (seedRows (map snd (typeById (expenseTypes st))) (snd (invoiceSplit h st year)))"
    using accOK_invoiceSplit[of h st year] by (simp add: accOK_def rows12_seedRows)
qed (simp add: rows12_expenseStep)

lemma set_firstOccurrences: "set (firstOccurrences xs) = set xs"
  by (induction xs rule: firstOccurrences.induct) auto

lemma cell_expenseRowsOf:
  assumes "m < 12"
  shows "cell (expenseRowsOf h st year) k m
         = cell (seedRows (map snd (typeById (expenseTypes st))) (snd (invoiceSplit h st year))) k m
           + (\<Sum>e\<leftarrow>filter (\<lambda>e. dateInYear year (oe_date e) \<and> typeName (expenseTypes st) e = k
                               \<and> monthIndex h (oe_date e) = Some m) (otherExpenses st).
                parseNumber h (oe_amount e))"
proof -
  let ?P = "\<lambda>e. dateInYear year (oe_date e) \<and> typeName (expenseTypes st) e = k
                  \<and> monthIndex h (oe_date e) = Some m"
  let ?f = "\<lambda>e. parseNumber h (oe_amount e)"
  let ?g = "\<lambda>rows :: real list jsmap. cell rows k m"
  let ?seed = "seedRows (map snd (typeById (expenseTypes st))) (snd (invoiceSplit h st year))"
  have "rows12 ?seed"
    using accOK_invoiceSplit[of h st year] by (simp add: accOK_def rows12_seedRows)
  then have "?g (fold (expenseStep h year (expenseTypes st)) (otherExpenses st) ?seed)
        = ?g ?seed + (\<Sum>e\<leftarrow>filter ?P (otherExpenses st). ?f e)"
    by (intro fold_additive[where I = rows12 and g = ?g and P = ?P and f = ?f])
      (simp_all add: rows12_expenseStep cell_expenseStep assms)
  then show ?thesis
    by (simp add: expenseRowsOf_alt)
qed

lemma map_of_expenseRowsOf_untouched:
  assumes "\<not> (\<exists>e\<in>set (otherExpenses st). dateInYear year (oe_date e) \<and> typeName (expenseTypes st) e = k)"
  shows "map_of (expenseRowsOf h st year) k
         = map_of (seedRows (map snd (typeById (expenseTypes st))) (snd (invoiceSplit h st year))) k"
proof -
  let ?seed = "seedRows (map snd (typeById (expenseTypes st))) (snd (invoiceSplit h st year))"
  have "map_of (fold (expenseStep h year (expenseTypes st)) (otherExpenses st) ?seed) k = map_of ?seed k"
    by (rule fold_invariant[where I = "\<lambda>rows. map_of rows k = map_of ?seed k"])
      (use assms in \<open>simp_all add: map_of_expenseStep_other\<close>)
  then show ?thesis by (simp add: expenseRowsOf_alt)
qed

lemma keys_expenseRowsOf:
  "map fst (expenseRowsOf h st year)
   = fold setAdd (map snd (typeById (expenseTypes st))) (map fst (snd (invoiceSplit h st year)))
     @ (if ''Other'' \<notin> set (map snd (typeById (expenseTypes st)))
           \<and> (\<exists>e\<in>set (otherExpenses st). dateInYear year (oe_date e)
                  \<and> typeName (expenseTypes st) e = ''Other'')
        then [''Other''] else [])"
proof -
  let ?names = "map snd (typeById (expenseTypes st))"
  let ?seed = "seedRows ?names (snd (invoiceSplit h st year))"
  have ks: "set (map fst ?seed) = set (map fst (snd (invoiceSplit h st year))) \<union> set ?names"
    by (simp only: keys_seedRows set_fold_setAdd)
  have "\<forall>e\<in>set (otherExpenses st). typeName (expenseTypes st) e = ''Other''
           \<or> typeName (expenseTypes st) e \<in> set (map fst ?seed)"
    using typeName_cases[of "expenseTypes st"] ks by blast
  from keys_fold_expenseStep[OF this, of h year]
  have "map fst (expenseRowsOf h st year)
        = map fst ?seed
          @ (if ''Other'' \<notin> set (map fst ?seed)
                \<and> (\<exists>e\<in>set (otherExpenses st). dateInYear year (oe_date e)
                       \<and> typeName (expenseTypes st) e = ''Other'')
             then [''Other''] else [])"
    by (simp only: expenseRowsOf_alt)
  moreover have "''Other'' \<notin> set (map fst ?seed) \<longleftrightarrow> ''Other'' \<notin> set ?names"
    unfolding ks by (auto simp: invoiceSplit_keys)
  ultimately show ?thesis
    by (simp only: keys_seedRows)
qed




lemma sales_calcPL: "sales (calcPLForYear h st year) = salesOf h st year"
  by (simp add: calcPLForYear_def Let_def)

lemma cogs_calcPL: "cogs (calcPLForYear h st year) = fst (invoiceSplit h st year)"
  by (simp add: calcPLForYear_def Let_def)

lemma expenseRows_calcPL: "expenseRows (calcPLForYear h st year) = expenseRowsOf h st year"
  by (simp add: calcPLForYear_def Let_def)







lemma calcPL_fields:
  "grossProfit (calcPLForYear h st year)
     = map (\<lambda>i. salesOf h st year ! i - fst (invoiceSplit h st year) ! i) [0..<length (salesOf h st year)]"
  "otherExpensesSum (calcPLForYear h st year) = sumCols (map snd (expenseRowsOf h st year))"
  "ebit (calcPLForYear h st year)
     = map (\<lambda>i. grossProfit (calcPLForYear h st year) ! i - otherExpensesSum (calcPLForYear h st year) ! i)
         [0..<length (grossProfit (calcPLForYear h st year))]"
  "net (calcPLForYear h st year) = ebit (calcPLForYear h st year)"
  by (simp_all add: calcPLForYear_def Let_def)

lemma length_salesOf: "length (salesOf h st year) = 12"
  by (simp add: salesOf_def length_fold_salesStep length_initRow)

lemma length_cogs: "length (fst (invoiceSplit h st year)) = 12"
  using accOK_invoiceSplit[of h st year] by (simp add: accOK_def)







lemma fold_setAdd_disjoint:
  assumes "set ns \<inter> set ks = {}"
  shows "fold setAdd ns ks = ks @ firstOccurrences ns"
proof -
  have "filter (\<lambda>n. n \<notin> set ks) ns = ns"
    using assms by (auto simp: filter_id_conv)
  then show ?thesis by (simp add: fold_setAdd_firstOccurrences)
qed

lemma cell_seed_Other:
  "cell (seedRows (map snd (typeById (expenseTypes st))) (snd (invoiceSplit h st year))) ''Other'' m = 0
   \<or> \<not> m < 12"
proof (cases "''Other'' \<in> set (map snd (typeById (expenseTypes st)))")
  case True
  then show ?thesis by (auto simp: cell_def map_of_seedRows nth_initRow)
next
  case False
  have "''Other'' \<notin> set (map fst (snd (invoiceSplit h st year)))"
    by (simp add: invoiceSplit_keys)
  then have "map_of (snd (invoiceSplit h st year)) ''Other'' = None"
    by (simp add: map_of_eq_None_iff)
  with False show ?thesis by (simp add: cell_def map_of_seedRows)
qed

lemma cell_expenseRows_Other:
  assumes "m < 12"
  shows "cell (expenseRows (calcPLForYear h st year)) ''Other'' m
           = (\<Sum>e\<leftarrow>filter (\<lambda>e. dateInYear year (oe_date e) \<and> typeName (expenseTypes st) e = ''Other''
                               \<and> monthIndex h (oe_date e) = Some m) (otherExpenses st).
                parseNumber h (oe_amount e))"
  using cell_seed_Other[of st h year m] assms
  by (simp add: cell_expenseRowsOf expenseRows_calcPL)

section \<open>Profit and loss: reconciliation with the ledger\<close>





section \<open>Profit and loss: the derived rows\<close>

text \<open>
  C3. For every input and every month index \<open>m\<close> from 0 to 11, the table of
  \<^verbatim>\<open>calcPLForYear\<close> has \<open>grossProfit[m] = sales[m] - cogs[m]\<close>, \<open>otherExpensesSum[m]\<close>
  (the operating expense total) equal to the sum over all rows of \<open>expenseRows\<close> of the
  row's value at \<open>m\<close>, \<open>ebit[m] = grossProfit[m] - otherExpensesSum[m]\<close> and
  \<open>net[m] = ebit[m]\<close>.
\<close>

theorem derived_rows:
  assumes "m < 12"
  shows "grossProfit (calcPLForYear h st year) ! m
           = sales (calcPLForYear h st year) ! m - cogs (calcPLForYear h st year) ! m
       \<and> otherExpensesSum (calcPLForYear h st year) ! m
           = (\<Sum>r\<leftarrow>map snd (expenseRows (calcPLForYear h st year)). r ! m)
       \<and> ebit (calcPLForYear h st year) ! m
           = grossProfit (calcPLForYear h st year) ! m - otherExpensesSum (calcPLForYear h st year) ! m
       \<and> net (calcPLForYear h st year) ! m = ebit (calcPLForYear h st year) ! m"
proof -
  have g: "grossProfit (calcPLForYear h st year) ! m
           = sales (calcPLForYear h st year) ! m - cogs (calcPLForYear h st year) ! m"
    using assms by (simp add: calcPL_fields(1) sales_calcPL cogs_calcPL length_salesOf)
  have rows: "list_all (\<lambda>r. length r = 12) (map snd (expenseRowsOf h st year))"
    using rows12_expenseRowsOf[of h st year] by (simp add: rows12_def)
  have o: "otherExpensesSum (calcPLForYear h st year) ! m
           = (\<Sum>r\<leftarrow>map snd (expenseRows (calcPLForYear h st year)). r ! m)"
    using sumCols_nth(1)[OF rows assms] by (simp add: calcPL_fields(2) expenseRows_calcPL)
  have "length (grossProfit (calcPLForYear h st year)) = 12"
    by (simp add: calcPL_fields(1) length_salesOf)
  then have e: "ebit (calcPLForYear h st year) ! m
           = grossProfit (calcPLForYear h st year) ! m - otherExpensesSum (calcPLForYear h st year) ! m"
    using assms by (subst calcPL_fields(3)) simp
  show ?thesis using g o e by (simp add: calcPL_fields(4))
qed

theorem derived_rows_witness:
  "(1::nat) < 12
   \<and> grossProfit (calcPLForYear utcHost sampleLedger 2024) ! 1
       = sales (calcPLForYear utcHost sampleLedger 2024) ! 1
         - cogs (calcPLForYear utcHost sampleLedger 2024) ! 1
   \<and> otherExpensesSum (calcPLForYear utcHost sampleLedger 2024) ! 1
       = (\<Sum>r\<leftarrow>map snd (expenseRows (calcPLForYear utcHost sampleLedger 2024)). r ! 1)
   \<and> ebit (calcPLForYear utcHost sampleLedger 2024) ! 1
       = grossProfit (calcPLForYear utcHost sampleLedger 2024) ! 1
         - otherExpensesSum (calcPLForYear utcHost sampleLedger 2024) ! 1
   \<and> net (calcPLForYear utcHost sampleLedger 2024) ! 1
       = ebit (calcPLForYear utcHost sampleLedger 2024) ! 1"
proof -
  have m: "(1::nat) < 12" by simp
  from derived_rows[OF m, of utcHost sampleLedger 2024] m show ?thesis
    by blast
qed

section \<open>Profit and loss: the expense rows\<close>

text \<open>
  C4, as amended. When the ids of the declared expense types are pairwise distinct and no
  declared type is named \<open>Invoice Expenses\<close>, the keys of \<open>expenseRows\<close>, in insertion
  order, are: \<open>Invoice Expenses\<close> if and only if some invoice of the year is no product
  invoice; then the declared names, each once, in catalog order; then \<open>Other\<close> when no
  declared type has that name and an expense of the year falls back to it. So the row
  \<open>Invoice Expenses\<close>, when present, precedes every row named after an expense type. Every
  row has 12 slots, and the row of a declared name that no expense of the year resolves to
  is 12 zeros.
\<close>

theorem expense_rows_layout:
  assumes "distinct (map et_id (expenseTypes st))"
    and "''Invoice Expenses'' \<notin> set (map et_name (expenseTypes st))"
  shows "map fst (expenseRows (calcPLForYear h st year))
         = (if \<exists>invo\<in>set (invoices st). dateInYear year (inv_invoiceDate invo) \<and> \<not> isProduct invo
            then [''Invoice Expenses''] else [])
           @ firstOccurrences (map et_name (expenseTypes st))
           @ (if ''Other'' \<notin> set (map et_name (expenseTypes st))
                 \<and> (\<exists>e\<in>set (otherExpenses st). dateInYear year (oe_date e)
                        \<and> typeName (expenseTypes st) e = ''Other'')
              then [''Other''] else [])
       \<and> list_all (\<lambda>r. length r = 12) (map snd (expenseRows (calcPLForYear h st year)))
       \<and> (\<forall>n\<in>set (map et_name (expenseTypes st)).
            \<not> (\<exists>e\<in>set (otherExpenses st). dateInYear year (oe_date e)
                   \<and> typeName (expenseTypes st) e = n)
            \<longrightarrow> map_of (expenseRows (calcPLForYear h st year)) n = Some (replicate 12 0))"
proof -
  have names: "map snd (typeById (expenseTypes st)) = map et_name (expenseTypes st)"
    using assms(1) by (rule typeById_distinct)
  have disj: "set (map snd (typeById (expenseTypes st))) \<inter> set (map fst (snd (invoiceSplit h st year))) = {}"
    using assms(2) unfolding names by (force simp: invoiceSplit_keys)
  have keys: "map fst (expenseRows (calcPLForYear h st year))
         = (if \<exists>invo\<in>set (invoices st). dateInYear year (inv_invoiceDate invo) \<and> \<not> isProduct invo
            then [''Invoice Expenses''] else [])
           @ firstOccurrences (map et_name (expenseTypes st))
           @ (if ''Other'' \<notin> set (map et_name (expenseTypes st))
                 \<and> (\<exists>e\<in>set (otherExpenses st). dateInYear year (oe_date e)
                        \<and> typeName (expenseTypes st) e = ''Other'')
              then [''Other''] else [])"
    unfolding expenseRows_calcPL keys_expenseRowsOf fold_setAdd_disjoint[OF disj]
    unfolding names invoiceSplit_keys by simp
  have len: "list_all (\<lambda>r. length r = 12) (map snd (expenseRows (calcPLForYear h st year)))"
    using rows12_expenseRowsOf[of h st year] by (simp add: rows12_def expenseRows_calcPL)
  have zero: "\<forall>n\<in>set (map et_name (expenseTypes st)).
            \<not> (\<exists>e\<in>set (otherExpenses st). dateInYear year (oe_date e)
                   \<and> typeName (expenseTypes st) e = n)
            \<longrightarrow> map_of (expenseRows (calcPLForYear h st year)) n = Some (replicate 12 0)"
  proof (intro ballI impI)
    fix n
    assume n: "n \<in> set (map et_name (expenseTypes st))"
      and ne: "\<not> (\<exists>e\<in>set (otherExpenses st). dateInYear year (oe_date e)
                   \<and> typeName (expenseTypes st) e = n)"
    from ne have "map_of (expenseRowsOf h st year) n
         = map_of (seedRows (map snd (typeById (expenseTypes st))) (snd (invoiceSplit h st year))) n"
      by (rule map_of_expenseRowsOf_untouched)
    also have "\<dots> = Some initRow"
      using n unfolding names by (simp add: map_of_seedRows)
    finally show "map_of (expenseRows (calcPLForYear h st year)) n = Some (replicate 12 0)"
      by (simp add: expenseRows_calcPL initRow_def)
  qed
  from keys len zero show ?thesis by blast
qed

theorem expense_rows_layout_witness:
  "distinct (map et_id (expenseTypes sampleLedger))
   \<and> ''Invoice Expenses'' \<notin> set (map et_name (expenseTypes sampleLedger))
   \<and> map fst (expenseRows (calcPLForYear utcHost sampleLedger 2024))
       = [''Invoice Expenses'', ''Wage'', ''Rent'', ''Other'']
   \<and> map_of (expenseRows (calcPLForYear utcHost sampleLedger 2024)) ''Wage'' = Some (replicate 12 0)"
proof -
  have d: "distinct (map et_id (expenseTypes sampleLedger))" by code_simp
  have n: "''Invoice Expenses'' \<notin> set (map et_name (expenseTypes sampleLedger))" by code_simp
  have k: "(if \<exists>invo\<in>set (invoices sampleLedger). dateInYear 2024 (inv_invoiceDate invo) \<and> \<not> isProduct invo
            then [''Invoice Expenses''] else [])
           @ firstOccurrences (map et_name (expenseTypes sampleLedger))
           @ (if ''Other'' \<notin> set (map et_name (expenseTypes sampleLedger))
                 \<and> (\<exists>e\<in>set (otherExpenses sampleLedger). dateInYear 2024 (oe_date e)
                        \<and> typeName (expenseTypes sampleLedger) e = ''Other'')
              then [''Other''] else [])
         = [''Invoice Expenses'', ''Wage'', ''Rent'', ''Other'']"
    by code_simp
  have w: "''Wage'' \<in> set (map et_name (expenseTypes sampleLedger))" by code_simp
  have z: "\<not> (\<exists>e\<in>set (otherExpenses sampleLedger). dateInYear 2024 (oe_date e)
                   \<and> typeName (expenseTypes sampleLedger) e = ''Wage'')"
    by code_simp
  from expense_rows_layout[OF d n, of utcHost 2024] k w z d n show ?thesis
    by (simp only:) blast
qed

text \<open>
  C4 as the specification states it fails: with an expense type named
  \<open>Invoice Expenses\<close> and no invoice at all, \<open>expenseRows\<close> has a row
  \<open>Invoice Expenses\<close>.
\<close>

theorem expense_rows_name_clash_counterexample:
  "''Invoice Expenses'' \<in> set (map fst (expenseRows (calcPLForYear utcHost collisionLedger 2024)))
   \<and> invoices collisionLedger = []"
  by code_simp



section \<open>The dashboard series\<close>

subsection \<open>Records that a lower bound excludes\<close>






lemma fold_filter_skip:
  assumes "\<And>x a. x \<in> set xs \<Longrightarrow> \<not> P x \<Longrightarrow> step x a = a"
  shows "fold step (filter P xs) a = fold step xs a"
  using assms by (induction xs arbitrary: a) simp_all

lemma beforeFrom_empty: "fromDate \<noteq> [] \<Longrightarrow> beforeFrom fromDate (Some [])"
  by (simp add: beforeFrom_def Nil_less_iff)

lemma sellStep_empty_date:
  "fromDate \<noteq> [] \<Longrightarrow> se_date e = Some [] \<Longrightarrow> sellStep h fromDate toDate e acc = acc"
  by (cases acc) (simp add: sellStep_def beforeFrom_empty)

lemma purchaseStep_empty_date:
  "fromDate \<noteq> [] \<Longrightarrow> inv_invoiceDate invo = Some [] \<Longrightarrow> purchaseStep h fromDate toDate invo m = m"
  by (simp add: purchaseStep_def beforeFrom_empty)

lemma otherStep_empty_date:
  "fromDate \<noteq> [] \<Longrightarrow> oe_date expn = Some [] \<Longrightarrow> otherStep h fromDate toDate expn m = m"
  by (simp add: otherStep_def beforeFrom_empty)

lemma fold_all_skip:
  assumes "\<And>x a. x \<in> set xs \<Longrightarrow> step x a = a"
  shows "fold step xs a = a"
  using assms by (induction xs arbitrary: a) simp_all

lemma mapToSortedSeries_Nil: "mapToSortedSeries [] = \<lparr> labels = [], vals = [] \<rparr>"
  by (simp add: mapToSortedSeries_def)

text \<open>
  C10. With a non-empty \<open>fromDate\<close>, the records whose date is the empty string have no
  part in the output of \<^verbatim>\<open>aggregateByMonthSell\<close> and of \<^verbatim>\<open>aggregateByMonthExpenses\<close>: the
  output is that of the ledger without them, and when all records have the empty date no
  series has any label, \<open>Unknown\<close> included.
\<close>

theorem empty_dates_excluded:
  assumes "fromDate \<noteq> []"
  shows "aggregateByMonthSell h st fromDate toDate
           = aggregateByMonthSell h
               (st\<lparr>sellEntries := filter (\<lambda>e. se_date e \<noteq> Some []) (sellEntries st)\<rparr>) fromDate toDate
       \<and> aggregateByMonthExpenses h st fromDate toDate
           = aggregateByMonthExpenses h
               (st\<lparr>invoices := filter (\<lambda>invo. inv_invoiceDate invo \<noteq> Some []) (invoices st),
                   otherExpenses := filter (\<lambda>e. oe_date e \<noteq> Some []) (otherExpenses st)\<rparr>)
               fromDate toDate
       \<and> (list_all (\<lambda>e. se_date e = Some []) (sellEntries st)
            \<longrightarrow> aggregateByMonthSell h st fromDate toDate
                  = \<lparr> fiscal = \<lparr> labels = [], vals = [] \<rparr>, nonFiscal = \<lparr> labels = [], vals = [] \<rparr> \<rparr>)
       \<and> (list_all (\<lambda>invo. inv_invoiceDate invo = Some []) (invoices st)
            \<and> list_all (\<lambda>e. oe_date e = Some []) (otherExpenses st)
            \<longrightarrow> aggregateByMonthExpenses h st fromDate toDate
                  = \<lparr> purchases = \<lparr> labels = [], vals = [] \<rparr>, expenses = \<lparr> labels = [], vals = [] \<rparr> \<rparr>)"
proof -
  have s: "fold (sellStep h fromDate toDate) (filter (\<lambda>e. se_date e \<noteq> Some []) (sellEntries st)) acc
           = fold (sellStep h fromDate toDate) (sellEntries st) acc" for acc
    by (rule fold_filter_skip) (simp add: sellStep_empty_date assms)
  have p: "fold (purchaseStep h fromDate toDate)
             (filter (\<lambda>invo. inv_invoiceDate invo \<noteq> Some []) (invoices st)) m
           = fold (purchaseStep h fromDate toDate) (invoices st) m" for m
    by (rule fold_filter_skip) (simp add: purchaseStep_empty_date assms)
  have o: "fold (otherStep h fromDate toDate) (filter (\<lambda>e. oe_date e \<noteq> Some []) (otherExpenses st)) m
           = fold (otherStep h fromDate toDate) (otherExpenses st) m" for m
    by (rule fold_filter_skip) (simp add: otherStep_empty_date assms)
  have s0: "list_all (\<lambda>e. se_date e = Some []) (sellEntries st)
            \<Longrightarrow> fold (sellStep h fromDate toDate) (sellEntries st) ([], []) = ([], [])"
    by (rule fold_all_skip) (simp add: sellStep_empty_date assms list_all_iff)
  have p0: "list_all (\<lambda>invo. inv_invoiceDate invo = Some []) (invoices st)
            \<Longrightarrow> fold (purchaseStep h fromDate toDate) (invoices st) [] = []"
    by (rule fold_all_skip) (simp add: purchaseStep_empty_date assms list_all_iff)
  have o0: "list_all (\<lambda>e. oe_date e = Some []) (otherExpenses st)
            \<Longrightarrow> fold (otherStep h fromDate toDate) (otherExpenses st) [] = []"
    by (rule fold_all_skip) (simp add: otherStep_empty_date assms list_all_iff)
  show ?thesis
    using s0 p0 o0
    by (simp add: aggregateByMonthSell_def aggregateByMonthExpenses_def s p o mapToSortedSeries_Nil)
qed

theorem empty_dates_excluded_witness:
  "''2024-01-01'' \<noteq> []
   \<and> aggregateByMonthSell utcHost undatedLedger ''2024-01-01'' []
       = aggregateByMonthSell utcHost
           (undatedLedger\<lparr>sellEntries := filter (\<lambda>e. se_date e \<noteq> Some []) (sellEntries undatedLedger)\<rparr>)
           ''2024-01-01'' []
   \<and> list_all (\<lambda>invo. inv_invoiceDate invo = Some []) (invoices undatedLedger)
   \<and> list_all (\<lambda>e. oe_date e = Some []) (otherExpenses undatedLedger)
   \<and> aggregateByMonthExpenses utcHost undatedLedger ''2024-01-01'' []
       = \<lparr> purchases = \<lparr> labels = [], vals = [] \<rparr>, expenses = \<lparr> labels = [], vals = [] \<rparr> \<rparr>"
proof -
  have f: "''2024-01-01'' \<noteq> ([] :: string)" by simp
  have a: "list_all (\<lambda>invo. inv_invoiceDate invo = Some []) (invoices undatedLedger)"
    by (simp add: undatedLedger_def)
  have b: "list_all (\<lambda>e. oe_date e = Some []) (otherExpenses undatedLedger)"
    by (simp add: undatedLedger_def)
  from empty_dates_excluded[OF f, of utcHost undatedLedger "[]"] a b f show ?thesis
    by blast
qed

subsection \<open>Month keys and buckets\<close>






lemma digitChar_less_U: "n < 10 \<Longrightarrow> digitChar n < CHR ''U''"
  by (simp add: digitChar_def less_char_def)

lemma showNat_hd: "showNat n \<noteq> [] \<and> hd (showNat n) < CHR ''U''"
proof (induction n rule: showNat.induct)
  case (1 n)
  show ?case
  proof (cases "n < 10")
    case True
    then show ?thesis by (subst (1 2) showNat.simps) (simp add: digitChar_less_U)
  next
    case False
    with 1 show ?thesis by (subst (1 2) showNat.simps) simp
  qed
qed

lemma showInt_hd: "showInt i \<noteq> [] \<and> hd (showInt i) < CHR ''U''"
  using showNat_hd[of "nat i"] by (simp add: showInt_def less_char_def)

lemma less_Unknown: "s \<noteq> [] \<Longrightarrow> hd s < CHR ''U'' \<Longrightarrow> s @ t < ''Unknown''"
  by (cases s) simp_all

lemma monthKey_cases:
  "monthKey h d = ''Unknown'' \<and> undated h d \<or> monthKey h d < ''Unknown'' \<and> \<not> undated h d"
proof (cases d)
  case None
  then show ?thesis by (simp add: monthKey_def undated_def)
next
  case (Some s)
  show ?thesis
  proof (cases "s = [] \<or> newDate h s = None")
    case True
    with Some show ?thesis by (auto simp: monthKey_def undated_def)
  next
    case False
    then obtain t where t: "newDate h s = Some t" by auto
    have "showInt (YearFromTime (LocalTime h t)) @ (''-'' @ pad2 (MonthFromTime (LocalTime h t) + 1))
          < ''Unknown''"
      using showInt_hd by (intro less_Unknown) simp_all
    with Some False t show ?thesis by (simp add: monthKey_def undated_def)
  qed
qed

lemma monthKey_Unknown_iff: "monthKey h d = ''Unknown'' \<longleftrightarrow> undated h d"
  using monthKey_cases[of h d] by auto

lemma monthKey_le_Unknown: "monthKey h d \<le> ''Unknown''"
  using monthKey_cases[of h d] by auto

lemma orZero_Some: "orZero (Some x) = x"
  by (simp add: orZero_def)

lemma orZero_bump:
  "orZero (map_of (bump key v m) k) = orZero (map_of m k) + (if k = key then v else 0)"
  by (simp add: bump_def map_of_mapSet orZero_Some)

lemma keys_bump: "fst ` set (bump key v m) = insert key (fst ` set m)"
proof -
  have "set (map fst (bump key v m)) = insert key (set (map fst m))"
    unfolding bump_def keys_mapSet by auto
  then show ?thesis by simp
qed

lemma sort_nonempty:
  fixes ks :: "string list"
  assumes "u \<in> set ks"
  shows "sort ks \<noteq> []"
proof
  assume "sort ks = []"
  then have "set (sort ks) = {}" by simp
  then show False using assms by simp
qed

lemma sellStep_value:
  "orZero (map_of (pick b (sellStep h [] [] e acc)) k)
   = orZero (map_of (pick b acc) k)
     + (if ((se_type e = Some ''fiscal'') = b) \<and> monthKey h (se_date e) = k
        then parseNumber h (se_amount e) else 0)"
  by (cases acc) (auto simp: sellStep_def Let_def pick_def beforeFrom_def afterTo_def orZero_bump)

lemma sellStep_keys:
  "set (map fst (pick b (sellStep h [] [] e acc)))
   = set (map fst (pick b acc))
     \<union> (if (se_type e = Some ''fiscal'') = b then {monthKey h (se_date e)} else {})"
  by (cases acc) (auto simp: sellStep_def Let_def pick_def beforeFrom_def afterTo_def keys_bump)

lemma fold_sellStep_keys:
  "set (map fst (pick b (fold (sellStep h [] []) es acc)))
   = set (map fst (pick b acc))
     \<union> (\<lambda>e. monthKey h (se_date e)) ` {e \<in> set es. (se_type e = Some ''fiscal'') = b}"
proof (induction es arbitrary: acc)
  case Nil
  then show ?case by simp
next
  case (Cons e es)
  show ?case
    unfolding fold_simps Cons.IH sellStep_keys by auto
qed

lemma fold_sellStep_value:
  "orZero (map_of (pick b (fold (sellStep h [] []) es acc)) k)
   = orZero (map_of (pick b acc) k)
     + (\<Sum>e\<leftarrow>filter (\<lambda>e. ((se_type e = Some ''fiscal'') = b) \<and> monthKey h (se_date e) = k) es.
          parseNumber h (se_amount e))"
proof -
  let ?P = "\<lambda>e. ((se_type e = Some ''fiscal'') = b) \<and> monthKey h (se_date e) = k"
  let ?f = "\<lambda>e. parseNumber h (se_amount e)"
  let ?g = "\<lambda>acc :: real jsmap \<times> real jsmap. orZero (map_of (pick b acc) k)"
  show ?thesis
    by (rule fold_additive[where I = "\<lambda>_. True" and g = ?g and P = ?P and f = ?f])
      (simp_all add: sellStep_value)
qed

lemma sorted_le_last:
  fixes xs :: "'a::linorder list"
  shows "sorted xs \<Longrightarrow> x \<in> set xs \<Longrightarrow> x \<le> last xs"
  by (induction xs) auto

lemma last_sort_max:
  fixes ks :: "string list"
  assumes "u \<in> set ks" and "\<forall>k\<in>set ks. k \<le> u"
  shows "last (sort ks) = u"
proof -
  have ne: "sort ks \<noteq> []" using assms(1) by (rule sort_nonempty)
  then have "last (sort ks) \<in> set (sort ks)" by (rule last_in_set)
  then have le: "last (sort ks) \<le> u" using assms(2) by simp
  have "u \<in> set (sort ks)" using assms(1) by simp
  then have "u \<le> last (sort ks)"
    by (intro sorted_le_last) simp_all
  with le show ?thesis by simp
qed

lemma mapToSortedSeries_facts:
  "labels (mapToSortedSeries m) = sort (map fst m)"
  "vals (mapToSortedSeries m) = map (\<lambda>l. orZero (map_of m l)) (sort (map fst m))"
  by (simp_all add: mapToSortedSeries_def Let_def)

lemma aggregateByMonthSell_pick:
  "(if b then fiscal (aggregateByMonthSell h st f t) else nonFiscal (aggregateByMonthSell h st f t))
   = mapToSortedSeries (pick b (fold (sellStep h f t) (sellEntries st) ([], [])))"
  by (cases "fold (sellStep h f t) (sellEntries st) ([], [])")
    (simp add: aggregateByMonthSell_def pick_def)

text \<open>
  C7. With no date bounds, for every sell entry whose date is absent, empty or not
  parseable: its month key is \<open>Unknown\<close>; the series of its kind (fiscal or non-fiscal)
  has the label \<open>Unknown\<close>; every label of that series is at most \<open>Unknown\<close>, which is
  therefore the last label; and the value under it, the last value, is the sum of
  \<^verbatim>\<open>parseNumber(amount)\<close> over all such entries of that kind, this entry among them.
\<close>

theorem unknown_bucket:
  assumes "e \<in> set (sellEntries st)" and "undated h (se_date e)"
    and "S = (if se_type e = Some ''fiscal'' then fiscal (aggregateByMonthSell h st [] [])
              else nonFiscal (aggregateByMonthSell h st [] []))"
  shows "monthKey h (se_date e) = ''Unknown''
       \<and> ''Unknown'' \<in> set (labels S)
       \<and> (\<forall>l\<in>set (labels S). l \<le> ''Unknown'')
       \<and> last (labels S) = ''Unknown''
       \<and> length (vals S) = length (labels S)
       \<and> last (vals S)
           = (\<Sum>x\<leftarrow>filter (\<lambda>x. ((se_type x = Some ''fiscal'') = (se_type e = Some ''fiscal''))
                               \<and> undated h (se_date x)) (sellEntries st).
                parseNumber h (se_amount x))"
proof -
  let ?b = "se_type e = Some ''fiscal''"
  let ?m = "pick ?b (fold (sellStep h [] []) (sellEntries st) ([], []))"
  have S: "S = mapToSortedSeries ?m"
    unfolding assms(3) by (rule aggregateByMonthSell_pick)
  have keys: "set (map fst ?m) = (\<lambda>x. monthKey h (se_date x)) ` {x \<in> set (sellEntries st). (se_type x = Some ''fiscal'') = ?b}"
    unfolding fold_sellStep_keys by (simp add: pick_def)
  have mk: "monthKey h (se_date e) = ''Unknown''"
    using assms(2) by (simp add: monthKey_Unknown_iff)
  have u: "''Unknown'' \<in> set (map fst ?m)"
    unfolding keys using assms(1) mk by force
  have le: "\<forall>k\<in>set (map fst ?m). k \<le> ''Unknown''"
    unfolding keys using monthKey_le_Unknown by auto
  have l: "last (sort (map fst ?m)) = ''Unknown''"
    using u le by (rule last_sort_max)
  have ne: "sort (map fst ?m) \<noteq> []" using u by (rule sort_nonempty)
  have "last (vals S) = orZero (map_of ?m (last (sort (map fst ?m))))"
    unfolding S mapToSortedSeries_facts using ne by (simp add: last_map)
  also have "\<dots> = (\<Sum>x\<leftarrow>filter (\<lambda>x. ((se_type x = Some ''fiscal'') = ?b)
                               \<and> monthKey h (se_date x) = ''Unknown'') (sellEntries st).
                parseNumber h (se_amount x))"
    unfolding l fold_sellStep_value by (simp add: pick_def orZero_def)
  finally have v: "last (vals S) = (\<Sum>x\<leftarrow>filter (\<lambda>x. ((se_type x = Some ''fiscal'') = ?b)
                               \<and> undated h (se_date x)) (sellEntries st).
                parseNumber h (se_amount x))"
    by (simp add: monthKey_Unknown_iff)
  from mk u le l v show ?thesis
    unfolding S mapToSortedSeries_facts by simp
qed

theorem unknown_bucket_witness:
  "\<lparr>se_id = ''s2'', se_date = Some [], se_type = Some ''fiscal'', se_amount = JNum 9\<rparr>
     \<in> set (sellEntries undatedLedger)
   \<and> undated utcHost (Some [])
   \<and> ''Unknown'' \<in> set (labels (fiscal (aggregateByMonthSell utcHost undatedLedger [] [])))
   \<and> last (labels (fiscal (aggregateByMonthSell utcHost undatedLedger [] []))) = ''Unknown''
   \<and> last (vals (fiscal (aggregateByMonthSell utcHost undatedLedger [] []))) = 13"
proof -
  let ?e = "\<lparr>se_id = ''s2'', se_date = Some [], se_type = Some ''fiscal'', se_amount = JNum 9\<rparr>"
  let ?S = "fiscal (aggregateByMonthSell utcHost undatedLedger [] [])"
  have a: "?e \<in> set (sellEntries undatedLedger)" by (simp add: undatedLedger_def)
  have b: "undated utcHost (se_date ?e)" by (simp add: undated_def)
  have s: "?S = (if se_type ?e = Some ''fiscal'' then fiscal (aggregateByMonthSell utcHost undatedLedger [] [])
              else nonFiscal (aggregateByMonthSell utcHost undatedLedger [] []))"
    by simp
  have v: "(\<Sum>x\<leftarrow>filter (\<lambda>x. ((se_type x = Some ''fiscal'') = (se_type ?e = Some ''fiscal''))
                               \<and> undated utcHost (se_date x)) (sellEntries undatedLedger).
                parseNumber utcHost (se_amount x)) = 13"
    by code_simp
  from unknown_bucket[OF a b s] v a b show ?thesis
    by simp
qed

section \<open>Aligning series\<close>













section \<open>The drill-down against the table\<close>

text \<open>
  C9 asks the drill-down of a cell to list the records that went into the cell, for the
  row \<open>Other\<close> the expenses whose \<open>typeId\<close> matches no declared type. On the sample
  ledger the expense \<open>o2\<close> of February has the unknown type \<open>zzz\<close>: \<^verbatim>\<open>calcPLForYear\<close>
  adds its amount 7 to the cell of \<open>Other\<close> and February, and \<^verbatim>\<open>openPLDetails\<close> for that
  cell, which finds no type named \<open>Other\<close> and so keeps the expenses whose \<open>typeId\<close> is
  the empty string, lists no record.
\<close>

theorem drilldown_other_row_eval:
  "cell (expenseRows (calcPLForYear utcHost sampleLedger 2024)) ''Other'' 1 = 7
   \<and> openPLDetails sampleLedger 2024 ''02'' ''Other'' = ExpenseDetails []"
proof -
  have "(\<Sum>e\<leftarrow>filter (\<lambda>e. dateInYear 2024 (oe_date e) \<and> typeName (expenseTypes sampleLedger) e = ''Other''
                               \<and> monthIndex utcHost (oe_date e) = Some 1) (otherExpenses sampleLedger).
                parseNumber utcHost (oe_amount e)) = 7"
    by code_simp
  then have "cell (expenseRows (calcPLForYear utcHost sampleLedger 2024)) ''Other'' 1 = 7"
    by (simp add: cell_expenseRows_Other)
  moreover have "openPLDetails sampleLedger 2024 ''02'' ''Other'' = ExpenseDetails []"
    by code_simp
  ultimately show ?thesis by simp
qed

end
